theory Spec2Isabelle
  imports Main "HOL-Library.Char_ord" "HOL-Library.List_Lexorder"
begin

section \<open>bboltkv: a gob-encoding key-value store on top of bbolt\<close>

text \<open>
  The package \<^verbatim>\<open>bboltkv\<close> (file \<^verbatim>\<open>bboltkv.go\<close>) wraps one bucket of a bbolt database:
  \<^verbatim>\<open>Put\<close> gob-encodes a value and stores the bytes under a key, \<^verbatim>\<open>Get\<close> seeks the key
  with a cursor and gob-decodes the stored bytes, \<^verbatim>\<open>Delete\<close> seeks the key and deletes
  the entry under the cursor.

  A Go \<^verbatim>\<open>string\<close> and a Go \<^verbatim>\<open>[]byte\<close> both hold a finite sequence of bytes, and the
  conversions \<^verbatim>\<open>[]byte(s)\<close> and \<^verbatim>\<open>string(b)\<close> copy that sequence. Both are lists of
  \<^typ>\<open>char\<close> here (a \<^typ>\<open>char\<close> is one byte). The order \<open><\<close> on such lists is the
  lexicographic order over the unsigned byte values, which is the order of Go's
  \<^verbatim>\<open>bytes.Compare\<close>.
\<close>

type_synonym bytes = "char list"

definition bytes_of :: "string \<Rightarrow> bytes" where
  \<comment> \<open>\<^verbatim>\<open>[]byte(s)\<close>\<close>
  "bytes_of s = s"

definition string_of :: "bytes \<Rightarrow> string" where
  \<comment> \<open>\<^verbatim>\<open>string(b)\<close>\<close>
  "string_of b = b"

subsection \<open>Errors\<close>

text \<open>
  Go's \<^verbatim>\<open>error\<close> values that can reach a caller of the package: the two sentinels the
  package declares (\<^verbatim>\<open>ErrNotFound\<close>, \<^verbatim>\<open>ErrBadValue\<close>), the errors of the bbolt calls the
  package makes, and the errors of \<^verbatim>\<open>encoding/gob\<close>. An error of gob is kept as the
  message gob reports; \<open>GobError\<close> is its place in the type of all errors, so an error
  of the codec is never one of the sentinels of this package. A nil pointer dereference
  (a method called on the nil \<^verbatim>\<open>*bbolt.Bucket\<close> that \<^verbatim>\<open>tx.Bucket\<close> returns for a missing
  bucket) is the value \<open>NilBucketPanic\<close>.
\<close>

datatype error =
    ErrNotFound
  | ErrBadValue
  | ErrTxNotWritable
  | ErrBucketNameRequired
  | ErrKeyRequired
  | ErrKeyTooLarge
  | ErrValueTooLarge
  | OpenError string
  | GobError string
  | NilBucketPanic

subsection \<open>The storage engine (package bbolt)\<close>

text \<open>
  The engine is the imported package \<^verbatim>\<open>go.etcd.io/bbolt\<close>. The store uses
  \<^verbatim>\<open>bbolt.Open\<close>, \<^verbatim>\<open>DB.Update\<close>, \<^verbatim>\<open>DB.View\<close>, \<^verbatim>\<open>Tx.CreateBucketIfNotExists\<close>,
  \<^verbatim>\<open>Tx.Bucket\<close>, \<^verbatim>\<open>Bucket.Put\<close>, \<^verbatim>\<open>Bucket.Cursor\<close>, \<^verbatim>\<open>Cursor.Seek\<close> and
  \<^verbatim>\<open>Cursor.Delete\<close>. Each is modelled by what its exported documentation promises:

  \<^item> a database holds named buckets; a bucket holds key/value pairs of byte strings,
    kept in byte-lexicographic order of the keys (the leaf entries of its B+tree,
    called inodes);
  \<^item> \<^verbatim>\<open>Update\<close> runs a function in a writable transaction, commits when the function
    returns nil and rolls back when it returns an error; \<^verbatim>\<open>View\<close> runs it in a
    read-only transaction, which is always rolled back;
  \<^item> \<^verbatim>\<open>Bucket.Put\<close>: ``Put sets the value for a key in the bucket. If the key exist then
    its previous value will be overwritten. Returns an error if the bucket was created
    from a read-only transaction, if the key is blank, if the key is too large, or if the
    value is too large.'' The limits are the exported constants \<^verbatim>\<open>MaxKeySize = 32768\<close>
    and \<^verbatim>\<open>MaxValueSize = (1 << 31) - 2\<close>;
  \<^item> \<^verbatim>\<open>Cursor.Seek\<close>: ``moves the cursor to a given key and returns it. If the key does
    not exist then the next key is used. If no keys follow, a nil key is returned.'';
  \<^item> \<^verbatim>\<open>Cursor.Delete\<close>: ``removes the current key/value under the cursor from the
    bucket. Delete fails if the transaction is not writable.''

  Disk failures are not modelled: a commit always succeeds. A bucket holds no nested
  buckets: the store never creates one.
\<close>

type_synonym inodes = "(bytes \<times> bytes) list"

type_synonym DB = "bytes \<Rightarrow> inodes option"

record Tx =
  root :: DB
  writable :: bool

record Bucket =
  bname :: bytes
  binodes :: inodes

record Cursor =
  cbucket :: Bucket
  cindex :: nat

definition MaxKeySize :: nat where
  "MaxKeySize = 32768"

definition MaxValueSize :: nat where
  "MaxValueSize = 2147483646"

fun search :: "bytes \<Rightarrow> inodes \<Rightarrow> nat" where
  \<comment> \<open>the index of the first entry whose key is not below \<open>key\<close> (the number of entries
      when there is none): what bbolt computes with \<^verbatim>\<open>sort.Search\<close> and
      \<^verbatim>\<open>bytes.Compare(inodes[i].key, key) != -1\<close>\<close>
  "search key [] = 0"
| "search key (kv # rest) = (if key \<le> fst kv then 0 else Suc (search key rest))"

definition node_put :: "bytes \<Rightarrow> bytes \<Rightarrow> inodes \<Rightarrow> inodes" where
  \<comment> \<open>bbolt's \<^verbatim>\<open>node.put\<close>: overwrite at the index found when the key there is the same,
      insert a new entry at that index otherwise\<close>
  "node_put key val ins =
     (let i = search key ins in
      if i < length ins \<and> fst (ins ! i) = key then ins[i := (key, val)]
      else take i ins @ (key, val) # drop i ins)"

definition node_del :: "bytes \<Rightarrow> inodes \<Rightarrow> inodes" where
  \<comment> \<open>bbolt's \<^verbatim>\<open>node.del\<close>: remove the entry at the index found when its key is the
      same, do nothing otherwise\<close>
  "node_del key ins =
     (let i = search key ins in
      if length ins \<le> i \<or> fst (ins ! i) \<noteq> key then ins
      else take i ins @ drop (Suc i) ins)"

definition Update :: "DB \<Rightarrow> (Tx \<Rightarrow> error option \<times> Tx) \<Rightarrow> error option \<times> DB" where
  "Update d fn =
     (case fn \<lparr>root = d, writable = True\<rparr> of
        (Some err, _) \<Rightarrow> (Some err, d)
      | (None, tx) \<Rightarrow> (None, root tx))"

definition View :: "DB \<Rightarrow> (Tx \<Rightarrow> 'r \<times> Tx) \<Rightarrow> 'r \<times> DB" where
  "View d fn = (case fn \<lparr>root = d, writable = False\<rparr> of (r, _) \<Rightarrow> (r, d))"

definition CreateBucketIfNotExists :: "Tx \<Rightarrow> bytes \<Rightarrow> error option \<times> Tx" where
  "CreateBucketIfNotExists tx nm =
     (if \<not> writable tx then (Some ErrTxNotWritable, tx)
      else if length nm = 0 then (Some ErrBucketNameRequired, tx)
      else (case root tx nm of
              Some _ \<Rightarrow> (None, tx)
            | None \<Rightarrow> (None, tx\<lparr>root := (root tx)(nm \<mapsto> [])\<rparr>)))"

definition Tx_Bucket :: "Tx \<Rightarrow> bytes \<Rightarrow> Bucket option" where
  \<comment> \<open>\<^verbatim>\<open>tx.Bucket(name)\<close>: nil when there is no bucket of that name\<close>
  "Tx_Bucket tx nm =
     (case root tx nm of
        None \<Rightarrow> None
      | Some ins \<Rightarrow> Some \<lparr>bname = nm, binodes = ins\<rparr>)"

definition Bucket_Put :: "Tx \<Rightarrow> Bucket \<Rightarrow> bytes \<Rightarrow> bytes \<Rightarrow> error option \<times> Tx" where
  "Bucket_Put tx b key val =
     (if \<not> writable tx then (Some ErrTxNotWritable, tx)
      else if length key = 0 then (Some ErrKeyRequired, tx)
      else if length key > MaxKeySize then (Some ErrKeyTooLarge, tx)
      else if length val > MaxValueSize then (Some ErrValueTooLarge, tx)
      else (None, tx\<lparr>root := (root tx)(bname b \<mapsto> node_put key val (binodes b))\<rparr>))"

definition Bucket_Cursor :: "Bucket \<Rightarrow> Cursor" where
  "Bucket_Cursor b = \<lparr>cbucket = b, cindex = 0\<rparr>"

definition Seek :: "Cursor \<Rightarrow> bytes \<Rightarrow> (bytes \<times> bytes) option \<times> Cursor" where
  \<comment> \<open>the entry found (\<open>None\<close> is the nil key), and the cursor moved to it\<close>
  "Seek c key =
     (let ins = binodes (cbucket c); i = search key ins in
      (if i < length ins then Some (ins ! i) else None, c\<lparr>cindex := i\<rparr>))"

definition Cursor_Delete :: "Tx \<Rightarrow> Cursor \<Rightarrow> error option \<times> Tx" where
  "Cursor_Delete tx c =
     (if \<not> writable tx then (Some ErrTxNotWritable, tx)
      else (let ins = binodes (cbucket c); i = cindex c in
            if i < length ins
            then (None, tx\<lparr>root := (root tx)(bname (cbucket c) \<mapsto> node_del (fst (ins ! i)) ins)\<rparr>)
            else (None, tx)))"

subsection \<open>The store\<close>

text \<open>
  \<^verbatim>\<open>type Store struct { db *bbolt.DB; bucketName []byte }\<close>. The field \<open>db\<close> holds the
  contents of the database the handle points to; every operation returns the store
  with the contents it leaves.
\<close>

record Store =
  db :: DB
  bucketName :: bytes

text \<open>
  The calls an operation makes to its two collaborators, in the order it makes them:
  an encoding, a decoding, the start of a writable and of a read-only transaction.
\<close>

datatype event = Encode | Decode | BeginUpdate | BeginView

text \<open>
  \<^verbatim>\<open>Open(path, bucketName)\<close>. The first argument stands for \<^verbatim>\<open>bbolt.Open\<close>, which
  depends on the file system and on the file lock: given the path, the file mode and
  the timeout in milliseconds it yields the error of the open or the contents of the
  database. The mode \<^verbatim>\<open>0640\<close> is 416.
\<close>

definition Open :: "(string \<Rightarrow> nat \<Rightarrow> nat \<Rightarrow> error + DB) \<Rightarrow> string \<Rightarrow> string \<Rightarrow> error + Store" where
  "Open bbolt_Open path name =
     (case bbolt_Open path 416 50 of
        Inl err \<Rightarrow> Inl err
      | Inr d \<Rightarrow>
          (case Update d (\<lambda>tx. CreateBucketIfNotExists tx (bytes_of name)) of
             (Some err, _) \<Rightarrow> Inl err
           | (None, d') \<Rightarrow> Inr \<lparr>db = d', bucketName = bytes_of name\<rparr>))"

text \<open>
  \<^verbatim>\<open>Put(key, value)\<close>. The value is an \<^verbatim>\<open>interface{}\<close>: \<open>None\<close> is the nil interface,
  \<open>Some v\<close> any other value. The first argument stands for
  \<^verbatim>\<open>gob.NewEncoder(&buf).Encode(value)\<close>: the error message of gob, or the bytes
  written to the buffer. The result is the error returned (\<open>None\<close> is nil), the
  store, and the calls made.
\<close>

definition Put_tx :: "Store \<Rightarrow> string \<Rightarrow> bytes \<Rightarrow> Tx \<Rightarrow> error option \<times> Tx" where
  \<comment> \<open>the function \<^verbatim>\<open>Put\<close> hands to \<^verbatim>\<open>Update\<close>\<close>
  "Put_tx s key buf tx =
     (case Tx_Bucket tx (bucketName s) of
        None \<Rightarrow> (Some NilBucketPanic, tx)
      | Some b \<Rightarrow> Bucket_Put tx b (bytes_of key) buf)"

definition Put :: "('v \<Rightarrow> string + bytes) \<Rightarrow> Store \<Rightarrow> string \<Rightarrow> 'v option
    \<Rightarrow> error option \<times> Store \<times> event list" where
  "Put enc s key val =
     (case val of
        None \<Rightarrow> (Some ErrBadValue, s, [])
      | Some v \<Rightarrow>
          (case enc v of
             Inl err \<Rightarrow> (Some (GobError err), s, [Encode])
           | Inr buf \<Rightarrow>
               (case Update (db s) (Put_tx s key buf) of
                  (err, d) \<Rightarrow> (err, s\<lparr>db := d\<rparr>, [Encode, BeginUpdate]))))"

text \<open>
  \<^verbatim>\<open>Get(key, value)\<close>. The destination is an \<^verbatim>\<open>interface{}\<close>: \<open>None\<close> is nil, \<open>Some d\<close>
  a pointer to a variable that holds \<open>d\<close>. The first argument stands for
  \<^verbatim>\<open>gob.NewDecoder(bytes.NewReader(v)).Decode(value)\<close>: from the stored bytes and the
  variable's contents, the error message of gob if any, and the contents the variable
  is left with. The result is the error returned, the destination after the call, the
  store, and the calls made.
\<close>

definition Get_tx :: "(bytes \<Rightarrow> 'd \<Rightarrow> string option \<times> 'd) \<Rightarrow> Store \<Rightarrow> string \<Rightarrow> 'd option \<Rightarrow> Tx
    \<Rightarrow> (error option \<times> 'd option \<times> event list) \<times> Tx" where
  \<comment> \<open>the function \<^verbatim>\<open>Get\<close> hands to \<^verbatim>\<open>View\<close>\<close>
  "Get_tx dec s key val tx =
     (case Tx_Bucket tx (bucketName s) of
        None \<Rightarrow> ((Some NilBucketPanic, val, []), tx)
      | Some b \<Rightarrow>
          (case Seek (Bucket_Cursor b) (bytes_of key) of
             (None, c) \<Rightarrow> ((Some ErrNotFound, val, []), tx)
           | (Some (k, v), c) \<Rightarrow>
               if string_of k \<noteq> key then ((Some ErrNotFound, val, []), tx)
               else (case val of
                       None \<Rightarrow> ((None, None, []), tx)
                     | Some d \<Rightarrow>
                         (case dec v d of
                            (err, d') \<Rightarrow> ((map_option GobError err, Some d', [Decode]), tx)))))"

definition Get :: "(bytes \<Rightarrow> 'd \<Rightarrow> string option \<times> 'd) \<Rightarrow> Store \<Rightarrow> string \<Rightarrow> 'd option
    \<Rightarrow> error option \<times> 'd option \<times> Store \<times> event list" where
  "Get dec s key val =
     (case View (db s) (Get_tx dec s key val) of
        ((err, val', evs), d) \<Rightarrow> (err, val', s\<lparr>db := d\<rparr>, BeginView # evs))"

text \<open>\<^verbatim>\<open>Delete(key)\<close>.\<close>

definition Delete_tx :: "Store \<Rightarrow> string \<Rightarrow> Tx \<Rightarrow> error option \<times> Tx" where
  \<comment> \<open>the function \<^verbatim>\<open>Delete\<close> hands to \<^verbatim>\<open>Update\<close>\<close>
  "Delete_tx s key tx =
     (case Tx_Bucket tx (bucketName s) of
        None \<Rightarrow> (Some NilBucketPanic, tx)
      | Some b \<Rightarrow>
          (case Seek (Bucket_Cursor b) (bytes_of key) of
             (None, c) \<Rightarrow> (Some ErrNotFound, tx)
           | (Some (k, v), c) \<Rightarrow>
               if string_of k \<noteq> key then (Some ErrNotFound, tx)
               else Cursor_Delete tx c))"

definition Delete :: "Store \<Rightarrow> string \<Rightarrow> error option \<times> Store \<times> event list" where
  "Delete s key =
     (case Update (db s) (Delete_tx s key) of
        (err, d) \<Rightarrow> (err, s\<lparr>db := d\<rparr>, [BeginUpdate]))"

definition GetDb :: "Store \<Rightarrow> DB" where
  "GetDb s = db s"

definition GetBucketName :: "Store \<Rightarrow> bytes" where
  "GetBucketName s = bucketName s"

subsection \<open>The collection of a store\<close>

text \<open>
  The collection is the bucket the store names, read as a mapping from keys to the
  bytes stored under them. A store is well formed when that bucket exists and its
  entries are strictly ascending in the key: the state every \<^verbatim>\<open>Open\<close> establishes and
  every operation keeps.
\<close>

definition inodes_of :: "Store \<Rightarrow> inodes" where
  "inodes_of s = (case db s (bucketName s) of None \<Rightarrow> [] | Some ins \<Rightarrow> ins)"

definition entries :: "Store \<Rightarrow> bytes \<Rightarrow> bytes option" where
  "entries s = map_of (inodes_of s)"

definition ascending :: "inodes \<Rightarrow> bool" where
  "ascending ins = sorted_wrt (<) (map fst ins)"

definition wf_Store :: "Store \<Rightarrow> bool" where
  "wf_Store s = (case db s (bucketName s) of None \<Rightarrow> False | Some ins \<Rightarrow> ascending ins)"

text \<open>
  The lookup of \<^verbatim>\<open>Get\<close> as the specification words it: a direct exact-match lookup
  of the requested key in the key-to-bytes mapping, not found when the mapping has no
  entry for it, then the discard test, then the decoding of the bytes found.
\<close>

definition Get_direct :: "(bytes \<Rightarrow> 'd \<Rightarrow> string option \<times> 'd) \<Rightarrow> Store \<Rightarrow> string \<Rightarrow> 'd option
    \<Rightarrow> error option \<times> 'd option \<times> Store \<times> event list" where
  "Get_direct dec s key val =
     (case entries s (bytes_of key) of
        None \<Rightarrow> (Some ErrNotFound, val, s, [BeginView])
      | Some v \<Rightarrow>
          (case val of
             None \<Rightarrow> (None, None, s, [BeginView])
           | Some d \<Rightarrow>
               (case dec v d of
                  (err, d') \<Rightarrow> (map_option GobError err, Some d', s, [BeginView, Decode]))))"

text \<open>
  A caller's calls on a store, for statements about every sequence of operations:
  each call is made on the store the call before it left.
\<close>

datatype ('v, 'd) call =
    CallPut string "'v option"
  | CallGet string "'d option"
  | CallDelete string

fun call_on :: "('v \<Rightarrow> string + bytes) \<Rightarrow> (bytes \<Rightarrow> 'd \<Rightarrow> string option \<times> 'd) \<Rightarrow> Store
    \<Rightarrow> ('v, 'd) call \<Rightarrow> Store" where
  "call_on enc dec s (CallPut key val) = fst (snd (Put enc s key val))"
| "call_on enc dec s (CallGet key val) = fst (snd (snd (Get dec s key val)))"
| "call_on enc dec s (CallDelete key) = fst (snd (Delete s key))"

fun calls_on :: "('v \<Rightarrow> string + bytes) \<Rightarrow> (bytes \<Rightarrow> 'd \<Rightarrow> string option \<times> 'd) \<Rightarrow> Store
    \<Rightarrow> ('v, 'd) call list \<Rightarrow> Store" where
  "calls_on enc dec s [] = s"
| "calls_on enc dec s (c # cs) = calls_on enc dec (call_on enc dec s c) cs"

section \<open>Properties of the engine operations\<close>

text \<open>
  The index arithmetic of \<open>node_put\<close>, \<open>node_del\<close> and \<open>Seek\<close> unfolds along the
  list of entries; the lemmas on ascending entries follow by induction on that list.
\<close>

lemma node_put_Nil: "node_put key val [] = [(key, val)]"
  by (simp add: node_put_def)

lemma node_put_Cons:
  "node_put key val (kv # rest) =
     (if key < fst kv then (key, val) # kv # rest
      else if key = fst kv then (key, val) # rest
      else kv # node_put key val rest)"
  by (auto simp: node_put_def Let_def)

lemma node_del_Nil: "node_del key [] = []"
  by (simp add: node_del_def)

lemma node_del_Cons:
  "node_del key (kv # rest) =
     (if key < fst kv then kv # rest
      else if key = fst kv then rest
      else kv # node_del key rest)"
  by (auto simp: node_del_def Let_def)

lemma map_of_node_put: "map_of (node_put key val ins) = (map_of ins)(key \<mapsto> val)"
  by (induction ins) (auto simp: node_put_Nil node_put_Cons)

lemma keys_node_put: "fst ` set (node_put key val ins) = insert key (fst ` set ins)"
  by (induction ins) (auto simp: node_put_Nil node_put_Cons)

lemma ascending_Nil: "ascending []"
  by (simp add: ascending_def)

lemma ascending_Cons:
  "ascending (kv # rest) \<longleftrightarrow> (\<forall>k \<in> fst ` set rest. fst kv < k) \<and> ascending rest"
  by (auto simp: ascending_def)

lemma ascending_node_put: "ascending ins \<Longrightarrow> ascending (node_put key val ins)"
proof (induction ins)
  case Nil
  then show ?case by (simp add: node_put_Nil ascending_def)
next
  case (Cons kv rest)
  then show ?case
    by (auto simp: node_put_Cons ascending_Cons keys_node_put simp del: image_insert)
qed

lemma map_of_below_all: "\<forall>k \<in> fst ` set ins. key < k \<Longrightarrow> map_of ins key = None" for ins :: inodes
  by (induction ins) auto

lemma map_of_node_del: "ascending ins \<Longrightarrow> map_of (node_del key ins) = (map_of ins)(key := None)"
proof (induction ins)
  case Nil
  then show ?case by (simp add: node_del_Nil)
next
  case (Cons kv rest)
  have "map_of rest (fst kv) = None"
    using Cons.prems by (auto simp: ascending_Cons intro: map_of_below_all)
  moreover have "key < fst kv \<Longrightarrow> map_of rest key = None"
    using Cons.prems by (auto simp: ascending_Cons intro!: map_of_below_all)
  ultimately show ?case using Cons
    by (cases kv) (auto simp: node_del_Cons ascending_Cons fun_eq_iff)
qed

lemma set_node_del: "x \<in> set (node_del key ins) \<Longrightarrow> x \<in> set ins"
  by (induction ins) (auto simp: node_del_Nil node_del_Cons split: if_splits)

lemma ascending_node_del: "ascending ins \<Longrightarrow> ascending (node_del key ins)"
proof (induction ins)
  case Nil
  then show ?case by (simp add: node_del_Nil)
next
  case (Cons kv rest)
  then show ?case
    by (auto simp: node_del_Cons ascending_Cons dest: set_node_del)
qed

lemma Seek_Nil: "fst (Seek (Bucket_Cursor \<lparr>bname = nm, binodes = []\<rparr>) key) = None"
  by (simp add: Seek_def Bucket_Cursor_def)

lemma Seek_Cons:
  "fst (Seek (Bucket_Cursor \<lparr>bname = nm, binodes = kv # rest\<rparr>) key) =
     (if key \<le> fst kv then Some kv
      else fst (Seek (Bucket_Cursor \<lparr>bname = nm, binodes = rest\<rparr>) key))"
  by (simp add: Seek_def Bucket_Cursor_def Let_def)

lemma Seek_exact:
  "ascending ins \<Longrightarrow>
   (case fst (Seek (Bucket_Cursor \<lparr>bname = nm, binodes = ins\<rparr>) key) of
      None \<Rightarrow> None
    | Some (k, v) \<Rightarrow> if k = key then Some v else None) = map_of ins key"
proof (induction ins)
  case Nil
  then show ?case by (simp add: Seek_Nil)
next
  case (Cons kv rest)
  have "key < fst kv \<Longrightarrow> map_of rest key = None"
    using Cons.prems by (auto simp: ascending_Cons intro!: map_of_below_all)
  then show ?case using Cons
    by (cases kv) (auto simp: Seek_Cons ascending_Cons)
qed

lemma Seek_index:
  "Seek (Bucket_Cursor b) key = (r, c) \<Longrightarrow> r = Some (k, v) \<Longrightarrow>
   cbucket c = b \<and> cindex c < length (binodes b) \<and> binodes b ! cindex c = (k, v)"
  by (auto simp: Seek_def Bucket_Cursor_def Let_def split: if_splits)

lemma one_entry: "ascending ins \<Longrightarrow> map_of ins key = Some v \<Longrightarrow>
   length (filter (\<lambda>kv. fst kv = key) ins) = 1"
proof (induction ins)
  case Nil
  then show ?case by simp
next
  case (Cons kv rest)
  show ?case
  proof (cases "fst kv = key")
    case True
    have "\<forall>x \<in> set rest. fst x \<noteq> key"
      using Cons.prems(1) True by (auto simp: ascending_Cons)
    then have "filter (\<lambda>kv. fst kv = key) rest = []"
      by (simp add: filter_empty_conv)
    with True show ?thesis by simp
  next
    case False
    with Cons show ?thesis by (cases kv) (auto simp: ascending_Cons)
  qed
qed

section \<open>Properties of the store operations\<close>

lemma Get_tx_tx: "snd (Get_tx dec s key val tx) = tx"
  by (auto simp: Get_tx_def split: option.splits prod.splits)

lemma Get_store: "fst (snd (snd (Get dec s key val))) = s"
  by (simp add: Get_def View_def split: prod.splits)

lemma Get_is_direct:
  assumes "wf_Store s"
  shows "Get dec s key val = Get_direct dec s key val"
proof -
  from assms obtain ins where b: "db s (bucketName s) = Some ins" and a: "ascending ins"
    by (auto simp: wf_Store_def split: option.splits)
  define r where "r = fst (Seek (Bucket_Cursor \<lparr>bname = bucketName s, binodes = ins\<rparr>) key)"
  have x: "entries s (bytes_of key) =
      (case r of None \<Rightarrow> None | Some (k, v) \<Rightarrow> if k = key then Some v else None)"
    unfolding r_def using Seek_exact [OF a]
    by (simp add: entries_def inodes_of_def b bytes_of_def)
  have g: "Get dec s key val =
      (case r of
         None \<Rightarrow> (Some ErrNotFound, val, s, [BeginView])
       | Some (k, v) \<Rightarrow>
           if k \<noteq> key then (Some ErrNotFound, val, s, [BeginView])
           else (case val of
                   None \<Rightarrow> (None, None, s, [BeginView])
                 | Some d \<Rightarrow> (map_option GobError (fst (dec v d)), Some (snd (dec v d)), s,
                     [BeginView, Decode])))"
    by (simp add: Get_def View_def Get_tx_def Tx_Bucket_def b r_def string_of_def bytes_of_def
        split: prod.splits option.splits)
  show ?thesis
  proof (cases r)
    case None
    with x g show ?thesis by (simp add: Get_direct_def)
  next
    case (Some kv)
    with x g show ?thesis
      by (cases kv) (auto simp: Get_direct_def split: option.splits prod.splits if_splits)
  qed
qed

lemma Delete_eq:
  assumes "wf_Store s"
  shows "Delete s key =
     (case entries s (bytes_of key) of
        None \<Rightarrow> (Some ErrNotFound, s, [BeginUpdate])
      | Some v \<Rightarrow> (None, s\<lparr>db := (db s)(bucketName s \<mapsto> node_del (bytes_of key) (inodes_of s))\<rparr>,
                   [BeginUpdate]))"
proof -
  from assms obtain ins where b: "db s (bucketName s) = Some ins" and a: "ascending ins"
    by (auto simp: wf_Store_def split: option.splits)
  obtain r c where rc: "Seek (Bucket_Cursor \<lparr>bname = bucketName s, binodes = ins\<rparr>) key = (r, c)"
    by (cases "Seek (Bucket_Cursor \<lparr>bname = bucketName s, binodes = ins\<rparr>) key")
  have x: "entries s (bytes_of key) =
      (case r of None \<Rightarrow> None | Some (k, v) \<Rightarrow> if k = key then Some v else None)"
    using Seek_exact [OF a, where nm = "bucketName s" and key = key]
    by (simp add: entries_def inodes_of_def b bytes_of_def rc)
  have i: "inodes_of s = ins"
    by (simp add: inodes_of_def b)
  show ?thesis
  proof (cases r)
    case None
    with x rc show ?thesis
      by (simp add: Delete_def Update_def Delete_tx_def Tx_Bucket_def b bytes_of_def)
  next
    case (Some kv)
    obtain k v where kv: "kv = (k, v)" by (cases kv)
    from Seek_index [OF rc] Some kv
    have c: "cbucket c = \<lparr>bname = bucketName s, binodes = ins\<rparr>" "cindex c < length ins"
      "ins ! cindex c = (k, v)"
      by auto
    show ?thesis
    proof (cases "k = key")
      case True
      with x Some kv have "entries s (bytes_of key) = Some v" by simp
      with True Some kv rc c show ?thesis
        by (simp add: Delete_def Update_def Delete_tx_def Tx_Bucket_def b bytes_of_def
            string_of_def Cursor_Delete_def i)
    next
      case False
      with x Some kv have "entries s (bytes_of key) = None" by simp
      with False Some kv rc show ?thesis
        by (simp add: Delete_def Update_def Delete_tx_def Tx_Bucket_def b bytes_of_def
            string_of_def)
    qed
  qed
qed

lemma Put_eq:
  assumes "db s (bucketName s) = Some ins" and "enc v = Inr buf"
  shows "Put enc s key (Some v) =
     (if length (bytes_of key) = 0 then (Some ErrKeyRequired, s, [Encode, BeginUpdate])
      else if length (bytes_of key) > MaxKeySize then (Some ErrKeyTooLarge, s, [Encode, BeginUpdate])
      else if length buf > MaxValueSize then (Some ErrValueTooLarge, s, [Encode, BeginUpdate])
      else (None, s\<lparr>db := (db s)(bucketName s \<mapsto> node_put (bytes_of key) buf ins)\<rparr>,
            [Encode, BeginUpdate]))"
  using assms
  by (simp add: Put_def Update_def Put_tx_def Tx_Bucket_def Bucket_Put_def)

lemma Put_bucketName: "bucketName (fst (snd (Put enc s key val))) = bucketName s"
  by (simp add: Put_def split: option.splits sum.splits prod.splits)

lemma Delete_bucketName: "bucketName (fst (snd (Delete s key))) = bucketName s"
  by (simp add: Delete_def split: prod.splits)

lemma call_on_bucketName: "bucketName (call_on enc dec s c) = bucketName s"
  by (cases c) (simp_all add: Put_bucketName Delete_bucketName Get_store)

lemma calls_on_bucketName: "bucketName (calls_on enc dec s cs) = bucketName s"
  by (induction cs arbitrary: s) (simp_all add: call_on_bucketName)

lemma Update_error_rollback: "fst (Update d fn) \<noteq> None \<Longrightarrow> snd (Update d fn) = d"
  by (auto simp: Update_def split: prod.splits option.splits)

lemma Put_error_unchanged: "fst (Put enc s key val) \<noteq> None \<Longrightarrow> fst (snd (Put enc s key val)) = s"
  by (auto simp: Put_def Update_def split: option.splits sum.splits prod.splits)

lemma Delete_error_unchanged: "fst (Delete s key) \<noteq> None \<Longrightarrow> fst (snd (Delete s key)) = s"
  by (auto simp: Delete_def Update_def split: option.splits prod.splits)

lemma Put_ok:
  assumes "Put enc s key val = (None, s', evs)"
  shows "\<exists>v buf ins. val = Some v \<and> enc v = Inr buf \<and> db s (bucketName s) = Some ins
      \<and> s' = s\<lparr>db := (db s)(bucketName s \<mapsto> node_put (bytes_of key) buf ins)\<rparr>
      \<and> evs = [Encode, BeginUpdate]"
  using assms
  by (auto simp: Put_def Update_def Put_tx_def Tx_Bucket_def Bucket_Put_def
      split: option.splits sum.splits prod.splits if_splits)

lemma wf_Put: "wf_Store s \<Longrightarrow> wf_Store (fst (snd (Put enc s key val)))"
proof (cases "fst (Put enc s key val)")
  case None
  assume w: "wf_Store s"
  obtain s' evs where p: "Put enc s key val = (None, s', evs)"
    using None by (cases "Put enc s key val") auto
  from Put_ok [OF p] w show ?thesis
    by (auto simp: p wf_Store_def ascending_node_put)
next
  case (Some e)
  assume "wf_Store s"
  with Some show ?thesis by (simp add: Put_error_unchanged)
qed

lemma entries_Put:
  assumes "Put enc s key (Some v) = (None, s', evs)" and "enc v = Inr buf"
  shows "entries s' = (entries s)(bytes_of key \<mapsto> buf)"
  using Put_ok [OF assms(1)] assms(2)
  by (auto simp: entries_def inodes_of_def map_of_node_put)

lemma wf_Delete: "wf_Store s \<Longrightarrow> wf_Store (fst (snd (Delete s key)))"
  by (auto simp: Delete_eq wf_Store_def inodes_of_def ascending_node_del split: option.splits)

lemma entries_Delete:
  "wf_Store s \<Longrightarrow> entries (fst (snd (Delete s key))) = (entries s)(bytes_of key := None)"
  by (auto simp: Delete_eq wf_Store_def entries_def inodes_of_def map_of_node_del
      split: option.splits)

lemma wf_call_on: "wf_Store s \<Longrightarrow> wf_Store (call_on enc dec s c)"
  by (cases c) (simp_all add: wf_Put wf_Delete Get_store)

lemma wf_calls_on: "wf_Store s \<Longrightarrow> wf_Store (calls_on enc dec s cs)"
  by (induction cs arbitrary: s) (simp_all add: wf_call_on)

lemma Open_ok:
  assumes "Open bbolt_Open path name = Inr s"
  shows "\<exists>d. bbolt_Open path 416 50 = Inr d \<and> bytes_of name \<noteq> [] \<and> bucketName s = bytes_of name
     \<and> db s = (case d (bytes_of name) of None \<Rightarrow> d(bytes_of name \<mapsto> []) | Some ins \<Rightarrow> d)"
  using assms
  by (auto simp: Open_def Update_def CreateBucketIfNotExists_def
      split: sum.splits option.splits prod.splits if_splits)

lemma wf_Open:
  assumes "Open bbolt_Open path name = Inr s"
    and "\<And>d ins. bbolt_Open path 416 50 = Inr d \<Longrightarrow> d (bytes_of name) = Some ins \<Longrightarrow> ascending ins"
  shows "wf_Store s"
proof -
  from Open_ok [OF assms(1)] obtain d where
    d: "bbolt_Open path 416 50 = Inr d" and n: "bucketName s = bytes_of name" and
    s: "db s = (case d (bytes_of name) of None \<Rightarrow> d(bytes_of name \<mapsto> []) | Some ins \<Rightarrow> d)"
    by blast
  show ?thesis
  proof (cases "d (bytes_of name)")
    case None
    with s n show ?thesis by (simp add: wf_Store_def ascending_Nil)
  next
    case (Some ins)
    with assms(2) [OF d Some] s n show ?thesis by (simp add: wf_Store_def)
  qed
qed

lemma Get_error_iff:
  "wf_Store s \<Longrightarrow> fst (Get dec s key val) = Some ErrNotFound \<longleftrightarrow> entries s (bytes_of key) = None"
  by (auto simp: Get_is_direct Get_direct_def split: option.splits prod.splits)

text \<open>
  The round trip of a value through \<^verbatim>\<open>Put\<close> and \<^verbatim>\<open>Get\<close>, for the keys and encodings
  \<^verbatim>\<open>Bucket.Put\<close> accepts and a destination into which the codec decodes the encoding
  as the value; and what \<^verbatim>\<open>Put\<close> does with the empty key.
\<close>

lemma Put_blank_key:
  assumes "db s (bucketName s) = Some ins" and "enc v = Inr buf"
  shows "Put enc s [] (Some v) = (Some ErrKeyRequired, s, [Encode, BeginUpdate])"
  using Put_eq [of s ins enc v buf "[]"] assms by (simp add: bytes_of_def)

lemma Put_Get_roundtrip:
  assumes "wf_Store s" and "enc v = Inr buf" and "dec buf d = (None, v)"
    and "bytes_of key \<noteq> []" and "length (bytes_of key) \<le> MaxKeySize"
    and "length buf \<le> MaxValueSize"
  shows "\<exists>s'. Put enc s key (Some v) = (None, s', [Encode, BeginUpdate])
      \<and> Get dec s' key (Some d) = (None, Some v, s', [BeginView, Decode])"
proof -
  from assms(1) obtain ins where b: "db s (bucketName s) = Some ins"
    by (auto simp: wf_Store_def split: option.splits)
  define s' where "s' = s\<lparr>db := (db s)(bucketName s \<mapsto> node_put (bytes_of key) buf ins)\<rparr>"
  have p: "Put enc s key (Some v) = (None, s', [Encode, BeginUpdate])"
    using assms(4-6) Put_eq [of s ins enc v buf key] b assms(2) by (simp add: s'_def)
  have w: "wf_Store s'"
    using wf_Put [OF assms(1), of enc key "Some v"] by (simp add: p)
  have e: "entries s' (bytes_of key) = Some buf"
    by (simp add: entries_Put [OF p assms(2)])
  have "Get dec s' key (Some d) = (None, Some v, s', [BeginView, Decode])"
    by (simp add: Get_is_direct [OF w] Get_direct_def e assms(3))
  with p show ?thesis by blast
qed

lemma entries_Put_other:
  "key' \<noteq> key \<Longrightarrow> entries (fst (snd (Put enc s key val))) (bytes_of key') = entries s (bytes_of key')"
proof (cases "fst (Put enc s key val)")
  case None
  assume n: "key' \<noteq> key"
  obtain s' evs where p: "Put enc s key val = (None, s', evs)"
    using None by (cases "Put enc s key val") auto
  from Put_ok [OF p] n show ?thesis
    by (auto simp: p entries_def inodes_of_def map_of_node_put bytes_of_def)
next
  case (Some e)
  then show ?thesis by (simp add: Put_error_unchanged)
qed

lemma absent_call_on:
  assumes "wf_Store s" and "entries s (bytes_of key) = None" and "\<forall>pv. c \<noteq> CallPut key pv"
  shows "entries (call_on enc dec s c) (bytes_of key) = None"
proof (cases c)
  case (CallPut k pv)
  with assms(3) have "key \<noteq> k" by auto
  with assms(2) CallPut show ?thesis by (simp add: entries_Put_other)
next
  case (CallGet k dv)
  with assms(2) show ?thesis by (simp add: Get_store)
next
  case (CallDelete k)
  with assms(1,2) show ?thesis by (simp add: entries_Delete)
qed

lemma absent_calls_on:
  "wf_Store s \<Longrightarrow> entries s (bytes_of key) = None \<Longrightarrow> \<forall>c \<in> set cs. \<forall>pv. c \<noteq> CallPut key pv \<Longrightarrow>
   entries (calls_on enc dec s cs) (bytes_of key) = None"
proof (induction cs arbitrary: s)
  case Nil
  then show ?case by simp
next
  case (Cons c cs)
  have "wf_Store (call_on enc dec s c)"
    using Cons.prems(1) by (rule wf_call_on)
  moreover have "entries (call_on enc dec s c) (bytes_of key) = None"
    using Cons.prems by (intro absent_call_on) auto
  ultimately show ?case using Cons.IH Cons.prems(3) by simp
qed

lemma Delete_error_iff:
  "wf_Store s \<Longrightarrow> fst (Delete s key) = Some ErrNotFound \<longleftrightarrow> entries s (bytes_of key) = None"
  by (auto simp: Delete_eq split: option.splits)

text \<open>
  Two writes under one key, when \<^verbatim>\<open>Bucket.Put\<close> accepts both: the bucket is left with
  one entry for the key, it holds the encoding of the second value, and \<^verbatim>\<open>Get\<close> hands
  exactly those bytes to the decoder and returns what the decoder makes of them.
\<close>

lemma Put_Put_overwrites:
  assumes "wf_Store s"
    and "Put enc s key (Some v1) = (None, s1, evs1)"
    and "Put enc s1 key (Some v2) = (None, s2, evs2)"
    and "enc v2 = Inr buf2"
  shows "length (filter (\<lambda>kv. fst kv = bytes_of key) (inodes_of s2)) = 1
    \<and> entries s2 (bytes_of key) = Some buf2
    \<and> Get dec s2 key (Some d) =
        (map_option GobError (fst (dec buf2 d)), Some (snd (dec buf2 d)), s2,
         [BeginView, Decode])"
proof -
  have w1: "wf_Store s1"
    using wf_Put [OF assms(1), of enc key "Some v1"] by (simp add: assms(2))
  have w2: "wf_Store s2"
    using wf_Put [OF w1, of enc key "Some v2"] by (simp add: assms(3))
  have e: "entries s2 (bytes_of key) = Some buf2"
    by (simp add: entries_Put [OF assms(3,4)])
  have a: "ascending (inodes_of s2)"
    using w2 by (auto simp: wf_Store_def inodes_of_def split: option.splits)
  have "length (filter (\<lambda>kv. fst kv = bytes_of key) (inodes_of s2)) = 1"
    using a e unfolding entries_def by (rule one_entry)
  moreover have "Get dec s2 key (Some d) =
      (map_option GobError (fst (dec buf2 d)), Some (snd (dec buf2 d)), s2, [BeginView, Decode])"
    by (simp add: Get_is_direct [OF w2] Get_direct_def e split: prod.splits)
  ultimately show ?thesis using e by simp
qed

section \<open>The claims\<close>

text \<open>
  C1, at the input the claim names: the empty key. The claim is that for every key,
  the empty string included, and every value gob can encode, \<^verbatim>\<open>Put(k, V)\<close> followed by
  \<^verbatim>\<open>Get(k, &out)\<close> succeeds and leaves \<open>V\<close> in \<open>out\<close>; the comment on \<^verbatim>\<open>Put\<close> says the same of
  the key (``The key can be an empty string''). On a store just opened on a new database,
  \<^verbatim>\<open>Put("", "value")\<close> returns the \<^verbatim>\<open>ErrKeyRequired\<close> of \<^verbatim>\<open>Bucket.Put\<close>, the
  transaction is rolled back, and \<^verbatim>\<open>Get("", &out)\<close> returns \<^verbatim>\<open>ErrNotFound\<close> and leaves
  \<open>out\<close> as it was. (For a key of 1 to 32768 bytes the round trip holds: lemma
  \<open>Put_Get_roundtrip\<close>.)
\<close>

theorem Put_empty_key_rejected:
  "Open (\<lambda>path mode timeout. Inr Map.empty) ''kv.db'' ''bucket''
     = Inr \<lparr>db = [''bucket'' \<mapsto> []], bucketName = ''bucket''\<rparr>
   \<and> Put (\<lambda>v. Inr v) \<lparr>db = [''bucket'' \<mapsto> []], bucketName = ''bucket''\<rparr> '''' (Some ''value'')
     = (Some ErrKeyRequired, \<lparr>db = [''bucket'' \<mapsto> []], bucketName = ''bucket''\<rparr>,
        [Encode, BeginUpdate])
   \<and> Get (\<lambda>b d. (None, b)) \<lparr>db = [''bucket'' \<mapsto> []], bucketName = ''bucket''\<rparr> '''' (Some ''out'')
     = (Some ErrNotFound, Some ''out'', \<lparr>db = [''bucket'' \<mapsto> []], bucketName = ''bucket''\<rparr>,
        [BeginView])"
  by (simp add: Open_def Update_def CreateBucketIfNotExists_def bytes_of_def Put_def Put_tx_def
      Tx_Bucket_def Bucket_Put_def Get_def View_def Get_tx_def Seek_def Bucket_Cursor_def)

text \<open>
  C2: on a well-formed store, \<^verbatim>\<open>Get(k, dest)\<close> returns \<^verbatim>\<open>ErrNotFound\<close> exactly when \<open>k\<close> is
  absent from the collection, whatever the destination, and so does \<^verbatim>\<open>Delete(k)\<close>; a key
  that is absent and is not the key of any later \<^verbatim>\<open>Put\<close> stays absent through every
  sequence of calls (a key never put), and a key put with success and then deleted is
  absent (the delete succeeds and leaves a well-formed store).
\<close>

theorem absent_key_NotFound:
  assumes "wf_Store s"
  shows "(fst (Get dec s key val) = Some ErrNotFound \<longleftrightarrow> entries s (bytes_of key) = None)
    \<and> (fst (Delete s key) = Some ErrNotFound \<longleftrightarrow> entries s (bytes_of key) = None)
    \<and> (entries s (bytes_of key) = None \<longrightarrow> (\<forall>c \<in> set cs. \<forall>pv. c \<noteq> CallPut key pv) \<longrightarrow>
         entries (calls_on enc dec s cs) (bytes_of key) = None)
    \<and> (Put enc s key pv = (None, s1, evs1) \<longrightarrow> Delete s1 key = (e2, s2, evs2) \<longrightarrow>
         e2 = None \<and> wf_Store s2 \<and> entries s2 (bytes_of key) = None)"
proof -
  have "e2 = None \<and> wf_Store s2 \<and> entries s2 (bytes_of key) = None"
    if p: "Put enc s key pv = (None, s1, evs1)" and d: "Delete s1 key = (e2, s2, evs2)"
  proof -
    from Put_ok [OF p] obtain v buf where v: "pv = Some v" "enc v = Inr buf" by blast
    have w1: "wf_Store s1" using wf_Put [OF assms, of enc key pv] by (simp add: p)
    have "entries s1 (bytes_of key) = Some buf"
      using entries_Put [of enc s key v s1 evs1 buf] p v by simp
    then have "e2 = None" using Delete_error_iff [OF w1, of key] Delete_eq [OF w1, of key] d
      by simp
    moreover have "wf_Store s2" using wf_Delete [OF w1, of key] by (simp add: d)
    moreover have "entries s2 (bytes_of key) = None"
      using entries_Delete [OF w1, of key] by (simp add: d)
    ultimately show ?thesis by simp
  qed
  then show ?thesis
    using assms by (simp add: Get_error_iff Delete_error_iff absent_calls_on)
qed

theorem absent_key_NotFound_witness:
  "wf_Store \<lparr>db = [''kv'' \<mapsto> [(''a'', ''1'')]], bucketName = ''kv''\<rparr>
   \<and> entries \<lparr>db = [''kv'' \<mapsto> [(''a'', ''1'')]], bucketName = ''kv''\<rparr> ''b'' = None
   \<and> fst (Get (\<lambda>b d. (None, b)) \<lparr>db = [''kv'' \<mapsto> [(''a'', ''1'')]], bucketName = ''kv''\<rparr> ''b'' (Some ''out''))
     = Some ErrNotFound
   \<and> fst (Delete \<lparr>db = [''kv'' \<mapsto> [(''a'', ''1'')]], bucketName = ''kv''\<rparr> ''b'') = Some ErrNotFound
   \<and> fst (Get (\<lambda>b d. (None, b)) \<lparr>db = [''kv'' \<mapsto> [(''a'', ''1'')]], bucketName = ''kv''\<rparr> ''a'' (Some ''out''))
     \<noteq> Some ErrNotFound
   \<and> fst (Delete \<lparr>db = [''kv'' \<mapsto> [(''a'', ''1'')]], bucketName = ''kv''\<rparr> ''a'') \<noteq> Some ErrNotFound
   \<and> Put (\<lambda>v. Inr v) \<lparr>db = [''kv'' \<mapsto> [(''a'', ''1'')]], bucketName = ''kv''\<rparr> ''b'' (Some ''2'')
     = (None, \<lparr>db = [''kv'' \<mapsto> [(''a'', ''1''), (''b'', ''2'')]], bucketName = ''kv''\<rparr>,
        [Encode, BeginUpdate])
   \<and> Delete \<lparr>db = [''kv'' \<mapsto> [(''a'', ''1''), (''b'', ''2'')]], bucketName = ''kv''\<rparr> ''b''
     = (None, \<lparr>db = [''kv'' \<mapsto> [(''a'', ''1'')]], bucketName = ''kv''\<rparr>, [BeginUpdate])
   \<and> entries (calls_on (\<lambda>v. Inr v) (\<lambda>b d. (None, b))
        \<lparr>db = [''kv'' \<mapsto> [(''a'', ''1'')]], bucketName = ''kv''\<rparr>
        [CallPut ''c'' (Some ''3''), CallGet ''b'' (Some ''out''), CallDelete ''a'']) ''b'' = None"
proof -
  have w: "wf_Store \<lparr>db = [''kv'' \<mapsto> [(''a'', ''1'')]], bucketName = ''kv''\<rparr>"
    by (simp add: wf_Store_def ascending_def)
  have b: "entries \<lparr>db = [''kv'' \<mapsto> [(''a'', ''1'')]], bucketName = ''kv''\<rparr> ''b'' = None"
    by (simp add: entries_def inodes_of_def)
  have a: "entries \<lparr>db = [''kv'' \<mapsto> [(''a'', ''1'')]], bucketName = ''kv''\<rparr> ''a'' = Some ''1''"
    by (simp add: entries_def inodes_of_def)
  have p: "Put (\<lambda>v. Inr v) \<lparr>db = [''kv'' \<mapsto> [(''a'', ''1'')]], bucketName = ''kv''\<rparr> ''b'' (Some ''2'')
     = (None, \<lparr>db = [''kv'' \<mapsto> [(''a'', ''1''), (''b'', ''2'')]], bucketName = ''kv''\<rparr>,
        [Encode, BeginUpdate])"
    by (simp add: Put_def Update_def Put_tx_def Tx_Bucket_def Bucket_Put_def bytes_of_def
        node_put_def MaxKeySize_def MaxValueSize_def)
  have d: "Delete \<lparr>db = [''kv'' \<mapsto> [(''a'', ''1''), (''b'', ''2'')]], bucketName = ''kv''\<rparr> ''b''
     = (None, \<lparr>db = [''kv'' \<mapsto> [(''a'', ''1'')]], bucketName = ''kv''\<rparr>, [BeginUpdate])"
    by (simp add: Delete_def Update_def Delete_tx_def Tx_Bucket_def Seek_def Bucket_Cursor_def
        Cursor_Delete_def node_del_def bytes_of_def string_of_def)
  note t1 = absent_key_NotFound [OF w, where key = "''b''" and dec = "\<lambda>b d. (None, b)"
      and val = "Some ''out''" and enc = "\<lambda>v. Inr v" and pv = "Some ''2''"
      and cs = "[CallPut ''c'' (Some ''3''), CallGet ''b'' (Some ''out''), CallDelete ''a'']"
      and ?s1.0 = "\<lparr>db = [''kv'' \<mapsto> [(''a'', ''1''), (''b'', ''2'')]], bucketName = ''kv''\<rparr>"
      and ?evs1.0 = "[Encode, BeginUpdate]" and ?e2.0 = None
      and ?s2.0 = "\<lparr>db = [''kv'' \<mapsto> [(''a'', ''1'')]], bucketName = ''kv''\<rparr>"
      and ?evs2.0 = "[BeginUpdate]"]
  note t2 = absent_key_NotFound [OF w, where key = "''a''" and dec = "\<lambda>b d. (None, b)"
      and val = "Some ''out''" and enc = "\<lambda>v. Inr v" and pv = "Some ''2''" and cs = "[]"]
  from t1 b have g1: "fst (Get (\<lambda>b d. (None, b))
      \<lparr>db = [''kv'' \<mapsto> [(''a'', ''1'')]], bucketName = ''kv''\<rparr> ''b'' (Some ''out'')) = Some ErrNotFound"
    and d1: "fst (Delete \<lparr>db = [''kv'' \<mapsto> [(''a'', ''1'')]], bucketName = ''kv''\<rparr> ''b'') = Some ErrNotFound"
    and c1: "entries (calls_on (\<lambda>v. Inr v) (\<lambda>b d. (None, b))
        \<lparr>db = [''kv'' \<mapsto> [(''a'', ''1'')]], bucketName = ''kv''\<rparr>
        [CallPut ''c'' (Some ''3''), CallGet ''b'' (Some ''out''), CallDelete ''a'']) ''b'' = None"
    by (simp_all add: bytes_of_def)
  from t2 a have g2: "fst (Get (\<lambda>b d. (None, b))
      \<lparr>db = [''kv'' \<mapsto> [(''a'', ''1'')]], bucketName = ''kv''\<rparr> ''a'' (Some ''out'')) \<noteq> Some ErrNotFound"
    and d2: "fst (Delete \<lparr>db = [''kv'' \<mapsto> [(''a'', ''1'')]], bucketName = ''kv''\<rparr> ''a'') \<noteq> Some ErrNotFound"
    by (simp_all add: bytes_of_def)
  from w b g1 d1 g2 d2 p d c1 show ?thesis by simp
qed

text \<open>
  C3: on a well-formed store (the entries of the bucket ascending in the key), \<^verbatim>\<open>Get\<close>
  with its cursor seek and test for an exact match is the same function as \<open>Get_direct\<close>,
  the direct lookup of the requested key in the key-to-bytes mapping: same error, same
  destination, same store, same calls. The witness seeks \<^verbatim>\<open>"ab"\<close> in a collection that
  holds only \<^verbatim>\<open>"abc"\<close>: the cursor stops on \<^verbatim>\<open>"abc"\<close> and the answer is not found.
\<close>

theorem Get_seek_is_direct_lookup:
  assumes "wf_Store s"
  shows "Get dec s key val = Get_direct dec s key val"
  using assms by (rule Get_is_direct)

theorem Get_seek_is_direct_lookup_witness:
  "wf_Store \<lparr>db = [''kv'' \<mapsto> [(''abc'', ''1'')]], bucketName = ''kv''\<rparr>
   \<and> Get (\<lambda>b d. (None, b)) \<lparr>db = [''kv'' \<mapsto> [(''abc'', ''1'')]], bucketName = ''kv''\<rparr> ''ab'' (Some ''out'')
     = (Some ErrNotFound, Some ''out'', \<lparr>db = [''kv'' \<mapsto> [(''abc'', ''1'')]], bucketName = ''kv''\<rparr>,
        [BeginView])
   \<and> Get (\<lambda>b d. (None, b)) \<lparr>db = [''kv'' \<mapsto> [(''abc'', ''1'')]], bucketName = ''kv''\<rparr> ''abc'' (Some ''out'')
     = (None, Some ''1'', \<lparr>db = [''kv'' \<mapsto> [(''abc'', ''1'')]], bucketName = ''kv''\<rparr>,
        [BeginView, Decode])"
proof -
  have w: "wf_Store \<lparr>db = [''kv'' \<mapsto> [(''abc'', ''1'')]], bucketName = ''kv''\<rparr>"
    by (simp add: wf_Store_def ascending_def)
  show ?thesis
    using w Get_seek_is_direct_lookup [OF w, of "\<lambda>b d. (None, b)" "''ab''" "Some ''out''"]
      Get_seek_is_direct_lookup [OF w, of "\<lambda>b d. (None, b)" "''abc''" "Some ''out''"]
    by (simp add: Get_direct_def entries_def inodes_of_def bytes_of_def)
qed

text \<open>
  C4: \<^verbatim>\<open>Put(k, nil)\<close> returns \<^verbatim>\<open>ErrBadValue\<close> having made no call at all (no
  encoding, no transaction) and leaves the store as it was, so that every later
  \<^verbatim>\<open>Get\<close>, for every key and destination, gives what it gave before.
\<close>

theorem Put_nil_is_BadValue:
  "Put enc s key None = (Some ErrBadValue, s, [])
   \<and> Get dec (fst (snd (Put enc s key None))) k val = Get dec s k val"
  by (simp add: Put_def)

text \<open>
  C5, at the empty key. The claim is that for every key \<open>k\<close> and every pair of values,
  \<^verbatim>\<open>Put(k, V1); Put(k, V2)\<close> leaves exactly one entry under \<open>k\<close> and a following
  \<^verbatim>\<open>Get(k, &out)\<close> yields \<open>V2\<close>. On a store just opened on a new database, with the key
  \<^verbatim>\<open>""\<close> that the comment on \<^verbatim>\<open>Put\<close> allows, both calls return the \<^verbatim>\<open>ErrKeyRequired\<close> of
  \<^verbatim>\<open>Bucket.Put\<close> and are rolled back: the bucket holds no entry under the key, and
  \<^verbatim>\<open>Get("", &out)\<close> returns \<^verbatim>\<open>ErrNotFound\<close> and leaves \<open>out\<close> as it was. (When both
  writes are accepted the last one wins: lemma \<open>Put_Put_overwrites\<close>.)
\<close>

theorem Put_twice_empty_key_no_entry:
  "Open (\<lambda>path mode timeout. Inr Map.empty) ''kv.db'' ''bucket''
     = Inr \<lparr>db = [''bucket'' \<mapsto> []], bucketName = ''bucket''\<rparr>
   \<and> Put (\<lambda>v. Inr v) \<lparr>db = [''bucket'' \<mapsto> []], bucketName = ''bucket''\<rparr> '''' (Some ''one'')
     = (Some ErrKeyRequired, \<lparr>db = [''bucket'' \<mapsto> []], bucketName = ''bucket''\<rparr>,
        [Encode, BeginUpdate])
   \<and> Put (\<lambda>v. Inr v) \<lparr>db = [''bucket'' \<mapsto> []], bucketName = ''bucket''\<rparr> '''' (Some ''two'')
     = (Some ErrKeyRequired, \<lparr>db = [''bucket'' \<mapsto> []], bucketName = ''bucket''\<rparr>,
        [Encode, BeginUpdate])
   \<and> length (filter (\<lambda>kv. fst kv = bytes_of '''')
        (inodes_of \<lparr>db = [''bucket'' \<mapsto> []], bucketName = ''bucket''\<rparr>)) = 0
   \<and> entries \<lparr>db = [''bucket'' \<mapsto> []], bucketName = ''bucket''\<rparr> (bytes_of '''') = None
   \<and> Get (\<lambda>b d. (None, b)) \<lparr>db = [''bucket'' \<mapsto> []], bucketName = ''bucket''\<rparr> '''' (Some ''out'')
     = (Some ErrNotFound, Some ''out'', \<lparr>db = [''bucket'' \<mapsto> []], bucketName = ''bucket''\<rparr>,
        [BeginView])"
  by (simp add: Open_def Update_def CreateBucketIfNotExists_def bytes_of_def Put_def Put_tx_def
      Tx_Bucket_def Bucket_Put_def Get_def View_def Get_tx_def Seek_def Bucket_Cursor_def
      inodes_of_def entries_def)

text \<open>
  C6: on a well-formed store, \<^verbatim>\<open>Get(k, nil)\<close> returns nil when \<open>k\<close> is present and
  \<^verbatim>\<open>ErrNotFound\<close> when it is absent (the test for the key comes before the test for
  nil), and in both cases its only call is the start of the read-only transaction: the
  decoder is not called. The witness runs it with a decoder that always fails.
\<close>

theorem Get_discard_checks_existence:
  assumes "wf_Store s"
  shows "Get dec s key None =
     (if entries s (bytes_of key) = None then (Some ErrNotFound, None, s, [BeginView])
      else (None, None, s, [BeginView]))"
  using assms by (auto simp: Get_is_direct Get_direct_def)

theorem Get_discard_checks_existence_witness:
  "wf_Store \<lparr>db = [''kv'' \<mapsto> [(''k'', ''one'')]], bucketName = ''kv''\<rparr>
   \<and> Get (\<lambda>b d. (Some ''gob: decode failed'', d)) \<lparr>db = [''kv'' \<mapsto> [(''k'', ''one'')]], bucketName = ''kv''\<rparr> ''k'' (None :: nat option)
     = (None, None, \<lparr>db = [''kv'' \<mapsto> [(''k'', ''one'')]], bucketName = ''kv''\<rparr>, [BeginView])
   \<and> Get (\<lambda>b d. (Some ''gob: decode failed'', d)) \<lparr>db = [''kv'' \<mapsto> [(''k'', ''one'')]], bucketName = ''kv''\<rparr> ''j'' (None :: nat option)
     = (Some ErrNotFound, None, \<lparr>db = [''kv'' \<mapsto> [(''k'', ''one'')]], bucketName = ''kv''\<rparr>, [BeginView])"
proof -
  have w: "wf_Store \<lparr>db = [''kv'' \<mapsto> [(''k'', ''one'')]], bucketName = ''kv''\<rparr>"
    by (simp add: wf_Store_def ascending_def)
  show ?thesis
    using w Get_discard_checks_existence [OF w, of "\<lambda>b d. (Some ''gob: decode failed'', d)" "''k''"]
      Get_discard_checks_existence [OF w, of "\<lambda>b d. (Some ''gob: decode failed'', d)" "''j''"]
    by (simp add: entries_def inodes_of_def bytes_of_def)
qed

text \<open>
  C7: on a well-formed store, \<^verbatim>\<open>Delete(k)\<close> for a present key returns nil and removes
  the entry of \<open>k\<close> and nothing else: the mapping afterwards is the mapping before
  without \<open>k\<close>, \<^verbatim>\<open>Get(k, _)\<close> returns \<^verbatim>\<open>ErrNotFound\<close>, every other key has the bytes it
  had and \<^verbatim>\<open>Get\<close> gives for it the error and the destination it gave before, and the
  other buckets of the database are as they were. When \<^verbatim>\<open>Delete\<close> returns
  \<^verbatim>\<open>ErrNotFound\<close> the store is unchanged.
\<close>

theorem Delete_removes_one_entry:
  assumes "wf_Store s"
  shows "(entries s (bytes_of key) \<noteq> None \<longrightarrow>
           fst (Delete s key) = None
         \<and> entries (fst (snd (Delete s key))) = (entries s)(bytes_of key := None)
         \<and> fst (Get dec (fst (snd (Delete s key))) key val) = Some ErrNotFound
         \<and> (\<forall>k. k \<noteq> key \<longrightarrow>
               entries (fst (snd (Delete s key))) (bytes_of k) = entries s (bytes_of k)
             \<and> fst (Get dec (fst (snd (Delete s key))) k val) = fst (Get dec s k val)
             \<and> fst (snd (Get dec (fst (snd (Delete s key))) k val)) = fst (snd (Get dec s k val)))
         \<and> (\<forall>nm. nm \<noteq> bucketName s \<longrightarrow> db (fst (snd (Delete s key))) nm = db s nm))
    \<and> (fst (Delete s key) = Some ErrNotFound \<longrightarrow> fst (snd (Delete s key)) = s)"
proof -
  define s' where "s' = fst (snd (Delete s key))"
  have w': "wf_Store s'"
    unfolding s'_def using assms by (rule wf_Delete)
  have e': "entries s' = (entries s)(bytes_of key := None)"
    unfolding s'_def using assms by (rule entries_Delete)
  have other: "entries s' (bytes_of k) = entries s (bytes_of k)" if "k \<noteq> key" for k
    using that by (simp add: e' bytes_of_def)
  have g: "fst (Get dec s' key val) = Some ErrNotFound"
    by (simp add: Get_error_iff [OF w'] e')
  have g1: "fst (Get dec s' k val) = fst (Get dec s k val)" if "k \<noteq> key" for k
    using other [OF that]
    by (simp add: Get_is_direct [OF w'] Get_is_direct [OF assms] Get_direct_def
        split: option.splits prod.splits)
  have g2: "fst (snd (Get dec s' k val)) = fst (snd (Get dec s k val))" if "k \<noteq> key" for k
    using other [OF that]
    by (simp add: Get_is_direct [OF w'] Get_is_direct [OF assms] Get_direct_def
        split: option.splits prod.splits)
  have ok: "fst (Delete s key) = None" if "entries s (bytes_of key) \<noteq> None"
    using that by (auto simp: Delete_eq [OF assms])
  have frame: "db s' nm = db s nm" if "nm \<noteq> bucketName s" for nm
    using that unfolding s'_def by (auto simp: Delete_eq [OF assms] split: option.splits)
  have nf: "fst (snd (Delete s key)) = s" if "fst (Delete s key) = Some ErrNotFound"
    using that by (simp add: Delete_error_unchanged)
  show ?thesis
    using e' g g1 g2 ok frame nf other unfolding s'_def by blast
qed

theorem Delete_removes_one_entry_witness:
  "wf_Store \<lparr>db = [''kv'' \<mapsto> [(''a'', ''1''), (''b'', ''2'')]], bucketName = ''kv''\<rparr>
   \<and> entries \<lparr>db = [''kv'' \<mapsto> [(''a'', ''1''), (''b'', ''2'')]], bucketName = ''kv''\<rparr> ''a'' = Some ''1''
   \<and> Delete \<lparr>db = [''kv'' \<mapsto> [(''a'', ''1''), (''b'', ''2'')]], bucketName = ''kv''\<rparr> ''a''
     = (None, \<lparr>db = [''kv'' \<mapsto> [(''b'', ''2'')]], bucketName = ''kv''\<rparr>, [BeginUpdate])
   \<and> fst (Get (\<lambda>b d. (None, b)) \<lparr>db = [''kv'' \<mapsto> [(''b'', ''2'')]], bucketName = ''kv''\<rparr> ''a'' (Some ''out''))
     = Some ErrNotFound
   \<and> entries \<lparr>db = [''kv'' \<mapsto> [(''b'', ''2'')]], bucketName = ''kv''\<rparr> ''b'' = Some ''2''
   \<and> Delete \<lparr>db = [''kv'' \<mapsto> [(''b'', ''2'')]], bucketName = ''kv''\<rparr> ''a''
     = (Some ErrNotFound, \<lparr>db = [''kv'' \<mapsto> [(''b'', ''2'')]], bucketName = ''kv''\<rparr>, [BeginUpdate])"
proof -
  have w: "wf_Store \<lparr>db = [''kv'' \<mapsto> [(''a'', ''1''), (''b'', ''2'')]], bucketName = ''kv''\<rparr>"
    by (simp add: wf_Store_def ascending_def)
  have e: "entries \<lparr>db = [''kv'' \<mapsto> [(''a'', ''1''), (''b'', ''2'')]], bucketName = ''kv''\<rparr> ''a'' = Some ''1''"
    by (simp add: entries_def inodes_of_def)
  have d: "Delete \<lparr>db = [''kv'' \<mapsto> [(''a'', ''1''), (''b'', ''2'')]], bucketName = ''kv''\<rparr> ''a''
     = (None, \<lparr>db = [''kv'' \<mapsto> [(''b'', ''2'')]], bucketName = ''kv''\<rparr>, [BeginUpdate])"
    by (simp add: Delete_def Update_def Delete_tx_def Tx_Bucket_def Seek_def Bucket_Cursor_def
        Cursor_Delete_def node_del_def bytes_of_def string_of_def)
  have w2: "wf_Store \<lparr>db = [''kv'' \<mapsto> [(''b'', ''2'')]], bucketName = ''kv''\<rparr>"
    by (simp add: wf_Store_def ascending_def)
  have d2: "Delete \<lparr>db = [''kv'' \<mapsto> [(''b'', ''2'')]], bucketName = ''kv''\<rparr> ''a''
     = (Some ErrNotFound, \<lparr>db = [''kv'' \<mapsto> [(''b'', ''2'')]], bucketName = ''kv''\<rparr>, [BeginUpdate])"
    by (simp add: Delete_def Update_def Delete_tx_def Tx_Bucket_def Seek_def Bucket_Cursor_def
        bytes_of_def string_of_def)
  note t = Delete_removes_one_entry [OF w, of "''a''" "\<lambda>b d. (None, b)" "Some ''out''"]
  from t e d
  have g: "fst (Get (\<lambda>b d. (None, b)) \<lparr>db = [''kv'' \<mapsto> [(''b'', ''2'')]], bucketName = ''kv''\<rparr> ''a'' (Some ''out''))
     = Some ErrNotFound"
    by (simp add: bytes_of_def)
  from t e d
  have "entries \<lparr>db = [''kv'' \<mapsto> [(''b'', ''2'')]], bucketName = ''kv''\<rparr> ''b''
     = entries \<lparr>db = [''kv'' \<mapsto> [(''a'', ''1''), (''b'', ''2'')]], bucketName = ''kv''\<rparr> ''b''"
    by (simp add: bytes_of_def)
  then have b: "entries \<lparr>db = [''kv'' \<mapsto> [(''b'', ''2'')]], bucketName = ''kv''\<rparr> ''b'' = Some ''2''"
    by (simp add: entries_def inodes_of_def)
  from w e d d2 g b show ?thesis by simp
qed

text \<open>
  C8: when the encoder fails, \<^verbatim>\<open>Put\<close> returns the encoder's error, its only call is
  the encoding (no transaction is started), and the store is unchanged.
\<close>

theorem Put_encode_error_returned:
  assumes "enc v = Inl err"
  shows "Put enc s key (Some v) = (Some (GobError err), s, [Encode])"
  using assms by (simp add: Put_def)

theorem Put_encode_error_returned_witness:
  "(\<lambda>v. if v = (0::nat) then Inl ''gob: type not registered'' else Inr ''x'') 0
     = Inl ''gob: type not registered''
   \<and> Put (\<lambda>v. if v = (0::nat) then Inl ''gob: type not registered'' else Inr ''x'')
       \<lparr>db = [''kv'' \<mapsto> [(''a'', ''1'')]], bucketName = ''kv''\<rparr> ''a'' (Some 0)
     = (Some (GobError ''gob: type not registered''),
        \<lparr>db = [''kv'' \<mapsto> [(''a'', ''1'')]], bucketName = ''kv''\<rparr>, [Encode])"
  using Put_encode_error_returned
    [of "\<lambda>v. if v = (0::nat) then Inl ''gob: type not registered'' else Inr ''x''" 0
      "''gob: type not registered''" "\<lparr>db = [''kv'' \<mapsto> [(''a'', ''1'')]], bucketName = ''kv''\<rparr>" "''a''"]
  by simp

text \<open>
  C9: for a store returned by \<^verbatim>\<open>Open(path, bucketName)\<close>, \<^verbatim>\<open>GetBucketName()\<close> is
  \<^verbatim>\<open>[]byte(bucketName)\<close>, and it still is after every sequence of \<^verbatim>\<open>Put\<close>, \<^verbatim>\<open>Get\<close> and
  \<^verbatim>\<open>Delete\<close> calls.
\<close>

theorem GetBucketName_is_Open_name:
  assumes "Open bbolt_Open path name = Inr s"
  shows "GetBucketName s = bytes_of name
    \<and> GetBucketName (calls_on enc dec s cs) = bytes_of name"
  using Open_ok [OF assms] by (auto simp: GetBucketName_def calls_on_bucketName)

theorem GetBucketName_is_Open_name_witness:
  "Open (\<lambda>path mode timeout. Inr Map.empty) ''kv.db'' ''bucket''
     = Inr \<lparr>db = [''bucket'' \<mapsto> []], bucketName = ''bucket''\<rparr>
   \<and> GetBucketName \<lparr>db = [''bucket'' \<mapsto> []], bucketName = ''bucket''\<rparr> = ''bucket''
   \<and> GetBucketName (calls_on (\<lambda>v. Inr v) (\<lambda>b d. (None, b))
        \<lparr>db = [''bucket'' \<mapsto> []], bucketName = ''bucket''\<rparr>
        [CallPut ''k'' (Some ''one''), CallGet ''k'' (Some ''out''), CallDelete ''k'']) = ''bucket''"
proof -
  have o: "Open (\<lambda>path mode timeout. Inr Map.empty) ''kv.db'' ''bucket''
     = Inr \<lparr>db = [''bucket'' \<mapsto> []], bucketName = ''bucket''\<rparr>"
    by (simp add: Open_def Update_def CreateBucketIfNotExists_def bytes_of_def)
  show ?thesis
    using o GetBucketName_is_Open_name [OF o, of "\<lambda>v. Inr v" "\<lambda>b d. (None, b)"
        "[CallPut ''k'' (Some ''one''), CallGet ''k'' (Some ''out''), CallDelete ''k'']"]
    by (simp add: bytes_of_def)
qed

text \<open>
  C10: \<^verbatim>\<open>Get\<close> leaves the store as it was, for every key, destination and decoder and
  whatever it returns; so the key-to-bytes mapping is the same before and after. The
  function it runs in the read-only transaction leaves the transaction's view of the
  database unchanged as well.
\<close>

theorem Get_leaves_store_unchanged:
  "fst (snd (snd (Get dec s key val))) = s
   \<and> entries (fst (snd (snd (Get dec s key val)))) = entries s
   \<and> snd (Get_tx dec s key val tx) = tx"
  by (simp add: Get_store Get_tx_tx)

end
